theory Spec2Isabelle
  imports Complex_Main "HOL-Library.Word"
begin

section \<open>Tasks and three-point estimations (package model)\<close>

text \<open>
  A \<open>float64\<close> value is a real number; infinities and NaN are outside this development.
  The specification describes the three estimates as real-valued and states its arithmetic
  identities over the reals, and the first model of \<open>SetEstimations\<close> below computes in
  exact real arithmetic. Its orderings and the values it leaves alone carry over to
  \<open>float64\<close>; a value it obtains through \<open>math.Floor\<close> or \<open>math.Ceil\<close> of a product
  need not. The second model, \<open>SetEstimations64\<close>, rounds every arithmetic operation as
  the code does and is the one used for computed values. \<open>math.Ceil\<close> and \<open>math.Floor\<close>
  return a \<open>float64\<close> holding an integer and are exact.
\<close>

type_synonym TaskID = string

record Estimations =
  Optimistic :: real
  Likely :: real
  Pessimistic :: real

record Task =
  ID :: TaskID
  Label :: string
  Description :: string
  Category :: string
  Estimations :: Estimations

definition Ceil :: "real \<Rightarrow> real" where
  "Ceil x = of_int \<lceil>x\<rceil>"

definition Floor :: "real \<Rightarrow> real" where
  "Floor x = of_int \<lfloor>x\<rfloor>"

text \<open>\<open>NewTask\<close>; the generated identifier is a parameter.\<close>

definition NewTask :: "TaskID \<Rightarrow> string \<Rightarrow> string \<Rightarrow> Task" where
  "NewTask generated label category =
     \<lparr>ID = generated, Label = label, Description = [], Category = category,
      Estimations = \<lparr>Optimistic = 0, Likely = 0, Pessimistic = 0\<rparr>\<rparr>"

text \<open>\<open>Task.WeightedMean\<close> and \<open>Task.StandardDeviation\<close>.\<close>

definition Task_WeightedMean :: "Task \<Rightarrow> real" where
  "Task_WeightedMean t =
     (Optimistic (Estimations t) + 4 * Likely (Estimations t) + Pessimistic (Estimations t)) / 6"

definition Task_StandardDeviation :: "Task \<Rightarrow> real" where
  "Task_StandardDeviation t =
     (Pessimistic (Estimations t) - Optimistic (Estimations t)) / 6"

text \<open>
  \<open>Task.SetEstimations\<close>, in the two phases of its body. \<open>autoFill\<close> is the
  \<open>if\<close>/\<open>else if\<close> chain that fills the values given as 0, in the source's order of
  branches; it returns the locals \<open>(o, l, p)\<close>. The local \<open>o\<close> is written \<open>ov\<close>
  (likewise \<open>lv\<close>, \<open>pv\<close>), since \<open>o\<close> is function composition in HOL.
\<close>

definition autoFill :: "real \<Rightarrow> real \<Rightarrow> real \<Rightarrow> real \<Rightarrow> real \<times> real \<times> real" where
  "autoFill ov lv pv multiplier =
     (if ov > 0 \<and> lv = 0 \<and> pv = 0 then
        (let l1 = Ceil (ov * (1 + multiplier));
             p1 = Ceil (l1 * (1 + multiplier))
         in (ov, l1, p1))
      else if lv > 0 \<and> ov = 0 \<and> pv = 0 then
        (let o1 = Floor (lv * (1 - multiplier));
             o2 = (if o1 < 0 then 0 else o1);
             p1 = Ceil (lv * (1 + multiplier))
         in (o2, lv, p1))
      else if pv > 0 \<and> ov = 0 \<and> lv = 0 then
        (let l1 = Floor (pv * (1 - multiplier));
             o1 = Floor (l1 * (1 - multiplier));
             o2 = (if o1 < 0 then 0 else o1)
         in (o2, l1, pv))
      else if ov > 0 \<and> lv > 0 \<and> pv = 0 then
        (ov, lv, Ceil (lv * (1 + multiplier)))
      else if ov > 0 \<and> pv > 0 \<and> lv = 0 then
        (let l1 = Ceil ((ov + pv) / 2);
             l2 = (if l1 < ov then ov else l1);
             l3 = (if l2 > pv then pv else l2)
         in (ov, l3, pv))
      else if lv > 0 \<and> pv > 0 \<and> ov = 0 then
        (let o1 = Floor (lv * (1 - multiplier));
             o2 = (if o1 < 0 then 0 else o1)
         in (o2, lv, pv))
      else (ov, lv, pv))"

text \<open>The forward propagation that follows: first \<open>l\<close> against \<open>o\<close>, then \<open>p\<close> against the new \<open>l\<close>.\<close>

definition enforce :: "real \<times> real \<times> real \<Rightarrow> real \<Rightarrow> real \<times> real \<times> real" where
  "enforce olp multiplier =
     (case olp of (ov, lv, pv) \<Rightarrow>
        (let l1 = (if lv > 0 \<and> lv \<le> ov then Ceil (ov * (1 + multiplier)) else lv);
             p1 = (if pv > 0 \<and> pv \<le> l1 then Ceil (l1 * (1 + multiplier)) else pv)
         in (ov, l1, p1)))"

definition SetEstimations :: "Task \<Rightarrow> real \<Rightarrow> real \<Rightarrow> real \<Rightarrow> real \<Rightarrow> Task" where
  "SetEstimations t optimistic likely pessimistic multiplier =
     (case enforce (autoFill optimistic likely pessimistic multiplier) multiplier of
        (ov, lv, pv) \<Rightarrow>
          t\<lparr>Estimations := \<lparr>Optimistic = ov, Likely = lv, Pessimistic = pv\<rparr>\<rparr>)"

section \<open>SetEstimations in float64 arithmetic\<close>


text \<open>
  The body of \<open>Task.SetEstimations\<close> once more, branch by branch, with each operation
  rounded: \<open>o * (1 + multiplier)\<close> is \<open>fl (ov * fl (1 + multiplier))\<close>, and
  \<open>(o + p) / 2\<close> is \<open>fl (fl (ov + pv) / 2)\<close>. With the identity for \<open>fl\<close> these are
  \<open>autoFill\<close>, \<open>enforce\<close> and \<open>SetEstimations\<close>.
\<close>

definition autoFill64 ::
    "(real \<Rightarrow> real) \<Rightarrow> real \<Rightarrow> real \<Rightarrow> real \<Rightarrow> real \<Rightarrow> real \<times> real \<times> real" where
  "autoFill64 fl ov lv pv multiplier =
     (if ov > 0 \<and> lv = 0 \<and> pv = 0 then
        (let l1 = Ceil (fl (ov * fl (1 + multiplier)));
             p1 = Ceil (fl (l1 * fl (1 + multiplier)))
         in (ov, l1, p1))
      else if lv > 0 \<and> ov = 0 \<and> pv = 0 then
        (let o1 = Floor (fl (lv * fl (1 - multiplier)));
             o2 = (if o1 < 0 then 0 else o1);
             p1 = Ceil (fl (lv * fl (1 + multiplier)))
         in (o2, lv, p1))
      else if pv > 0 \<and> ov = 0 \<and> lv = 0 then
        (let l1 = Floor (fl (pv * fl (1 - multiplier)));
             o1 = Floor (fl (l1 * fl (1 - multiplier)));
             o2 = (if o1 < 0 then 0 else o1)
         in (o2, l1, pv))
      else if ov > 0 \<and> lv > 0 \<and> pv = 0 then
        (ov, lv, Ceil (fl (lv * fl (1 + multiplier))))
      else if ov > 0 \<and> pv > 0 \<and> lv = 0 then
        (let l1 = Ceil (fl (fl (ov + pv) / 2));
             l2 = (if l1 < ov then ov else l1);
             l3 = (if l2 > pv then pv else l2)
         in (ov, l3, pv))
      else if lv > 0 \<and> pv > 0 \<and> ov = 0 then
        (let o1 = Floor (fl (lv * fl (1 - multiplier)));
             o2 = (if o1 < 0 then 0 else o1)
         in (o2, lv, pv))
      else (ov, lv, pv))"

definition enforce64 ::
    "(real \<Rightarrow> real) \<Rightarrow> real \<times> real \<times> real \<Rightarrow> real \<Rightarrow> real \<times> real \<times> real" where
  "enforce64 fl olp multiplier =
     (case olp of (ov, lv, pv) \<Rightarrow>
        (let l1 = (if lv > 0 \<and> lv \<le> ov then Ceil (fl (ov * fl (1 + multiplier))) else lv);
             p1 = (if pv > 0 \<and> pv \<le> l1 then Ceil (fl (l1 * fl (1 + multiplier))) else pv)
         in (ov, l1, p1)))"

definition SetEstimations64 ::
    "(real \<Rightarrow> real) \<Rightarrow> Task \<Rightarrow> real \<Rightarrow> real \<Rightarrow> real \<Rightarrow> real \<Rightarrow> Task" where
  "SetEstimations64 fl t optimistic likely pessimistic multiplier =
     (case enforce64 fl (autoFill64 fl optimistic likely pessimistic multiplier) multiplier of
        (ov, lv, pv) \<Rightarrow>
          t\<lparr>Estimations := \<lparr>Optimistic = ov, Likely = lv, Pessimistic = pv\<rparr>\<rparr>)"

text \<open>
  Round-to-nearest, ties to even, to 53 significant bits: \<open>rne\<close> rounds to an integer,
  \<open>binary64\<close> scales the argument so that its magnitude lies between 2^52 and 2^53,
  rounds it there and scales back. The exponent is not bounded, so \<open>binary64\<close> is the
  rounding of \<open>float64\<close> on its normal range.
\<close>

definition rne :: "real \<Rightarrow> int" where
  "rne y =
     (if y - of_int \<lfloor>y\<rfloor> < 1 / 2 then \<lfloor>y\<rfloor>
      else if 1 / 2 < y - of_int \<lfloor>y\<rfloor> then \<lfloor>y\<rfloor> + 1
      else if even \<lfloor>y\<rfloor> then \<lfloor>y\<rfloor> else \<lfloor>y\<rfloor> + 1)"

definition binary64 :: "real \<Rightarrow> real" where
  "binary64 x =
     (if x = 0 then 0
      else of_int (rne (x / 2 powr of_int (\<lfloor>log 2 \<bar>x\<bar>\<rfloor> - 52)))
             * 2 powr of_int (\<lfloor>log 2 \<bar>x\<bar>\<rfloor> - 52))"

section \<open>Configuration (package model, config.go)\<close>

record TaskCategory =
  ID :: string
  Label :: string
  CostPerTimeUnit :: real

record TimeUnit =
  Label :: string
  Acronym :: string

text \<open>A Go \<open>map[K]V\<close> is a partial function \<open>K \<rightharpoonup> V\<close>.\<close>

record Config =
  TaskCategories :: "string \<rightharpoonup> TaskCategory"
  TimeUnit :: TimeUnit
  Currency :: string
  RoundUpEstimations :: bool
  AutoEstimationMultiplier :: real

definition GetTaskCategory :: "Config \<Rightarrow> string \<Rightarrow> TaskCategory" where
  "GetTaskCategory c cid =
     (case Config.TaskCategories c cid of
        Some cat \<Rightarrow> cat
      | None \<Rightarrow> \<lparr>TaskCategory.ID = cid, TaskCategory.Label = cid, CostPerTimeUnit = 500\<rparr>)"

section \<open>Estimation projects (package model)\<close>

text \<open>
  \<open>time.Time\<close> is a point on an integer time line. Every function that reads the clock
  takes the value \<open>time.Now()\<close> returns as its last parameter \<open>now\<close>. The map
  \<open>Tasks\<close> holds \<open>*Task\<close> pointers in the source; the model stores the task values and
  so covers estimations whose map has no nil entry.
\<close>

type_synonym EstimationID = string
type_synonym Time = int

record EstimationParams =
  TaskCategories :: "string \<rightharpoonup> TaskCategory"
  TimeUnit :: "TimeUnit option"
  Currency :: string
  RoundUpEstimations :: "bool option"

record Estimation =
  ID :: EstimationID
  Label :: string
  Description :: string
  CreatedAt :: Time
  UpdatedAt :: Time
  Ordering :: "TaskID list"
  Tasks :: "TaskID \<rightharpoonup> Task"
  Params :: "EstimationParams option"

definition NewEstimation :: "EstimationID \<Rightarrow> string \<Rightarrow> Time \<Rightarrow> Estimation" where
  "NewEstimation generated label now =
     \<lparr>ID = generated, Label = label, Description = [], CreatedAt = now, UpdatedAt = now,
      Ordering = [], Tasks = Map.empty, Params = None\<rparr>"

definition AddTask :: "Estimation \<Rightarrow> Task \<Rightarrow> Time \<Rightarrow> Estimation" where
  "AddTask e task now =
     e\<lparr>Tasks := (Tasks e)(Task.ID task \<mapsto> task),
       Ordering := Ordering e @ [Task.ID task],
       UpdatedAt := now\<rparr>"

text \<open>
  The search shared by \<open>RemoveTask\<close> and \<open>MoveTask\<close>:
  \<^verbatim>\<open>for i, taskID := range e.Ordering { if taskID == id { ...; break } }\<close>.
  It yields the index of the first occurrence, or \<open>None\<close> when the iteration ends without a
  match (\<open>currentIndex == -1\<close> in \<open>MoveTask\<close>). The parameter \<open>id\<close> is written \<open>tid\<close>.
\<close>

fun indexOf :: "TaskID list \<Rightarrow> TaskID \<Rightarrow> nat option" where
  "indexOf [] tid = None"
| "indexOf (taskID # rest) tid =
     (if taskID = tid then Some 0 else map_option Suc (indexOf rest tid))"

text \<open>\<open>append(s[:i], s[i+1:]...)\<close>: the slice without its element at index \<open>i\<close>.\<close>

definition removeAt :: "nat \<Rightarrow> 'a list \<Rightarrow> 'a list" where
  "removeAt i s = take i s @ drop (i + 1) s"

text \<open>\<open>append(s[:i], append([]T{x}, s[i:]...)...)\<close>: \<open>x\<close> inserted at index \<open>i\<close>.\<close>

definition insertAt :: "nat \<Rightarrow> 'a \<Rightarrow> 'a list \<Rightarrow> 'a list" where
  "insertAt i x s = take i s @ [x] @ drop i s"

definition RemoveTask :: "Estimation \<Rightarrow> TaskID \<Rightarrow> Time \<Rightarrow> Estimation" where
  "RemoveTask e tid now =
     e\<lparr>Tasks := (Tasks e)(tid := None),
       Ordering := (case indexOf (Ordering e) tid of
                      Some i \<Rightarrow> removeAt i (Ordering e)
                    | None \<Rightarrow> Ordering e),
       UpdatedAt := now\<rparr>"

text \<open>
  \<open>MoveTask\<close> returns its boolean together with the estimation after the call. The
  parameter \<open>offset\<close> is a Go \<open>int\<close>, taken as 64 bits wide (its size on 64-bit
  platforms), so \<open>currentIndex + offset\<close> is a wrapping addition read as a signed value.
  The second slicing happens only after the bounds check, with \<open>0 \<le> newIndex < len\<close>, where
  it cannot go out of range.
\<close>

definition MoveTask :: "Estimation \<Rightarrow> TaskID \<Rightarrow> 64 word \<Rightarrow> Time \<Rightarrow> bool \<times> Estimation" where
  "MoveTask e tid offset now =
     (case indexOf (Ordering e) tid of
        None \<Rightarrow> (False, e)
      | Some currentIndex \<Rightarrow>
          (let newIndex = (word_of_nat currentIndex :: 64 word) + offset in
           if sint newIndex < 0 \<or> sint newIndex \<ge> int (length (Ordering e)) then (False, e)
           else
             (True,
              e\<lparr>Ordering := insertAt (nat (sint newIndex)) tid (removeAt currentIndex (Ordering e)),
                UpdatedAt := now\<rparr>)))"

text \<open>
  Sequences of calls on one estimation. A call of \<open>AddTask\<close> is fresh when the identifier of
  its task is not yet a key of \<open>Tasks\<close>, which is what the callers obtain from generated
  identifiers.
\<close>

datatype Call =
  CallAddTask Task Time
| CallRemoveTask TaskID Time
| CallMoveTask TaskID "64 word" Time

fun perform :: "Estimation \<Rightarrow> Call \<Rightarrow> Estimation" where
  "perform e (CallAddTask task now) = AddTask e task now"
| "perform e (CallRemoveTask tid now) = RemoveTask e tid now"
| "perform e (CallMoveTask tid offset now) = snd (MoveTask e tid offset now)"

fun fresh :: "Estimation \<Rightarrow> Call \<Rightarrow> bool" where
  "fresh e (CallAddTask task now) = (Tasks e (Task.ID task) = None)"
| "fresh e (CallRemoveTask tid now) = True"
| "fresh e (CallMoveTask tid offset now) = True"

fun performAll :: "Estimation \<Rightarrow> Call list \<Rightarrow> Estimation" where
  "performAll e [] = e"
| "performAll e (c # cs) = performAll (perform e c) cs"

fun allFresh :: "Estimation \<Rightarrow> Call list \<Rightarrow> bool" where
  "allFresh e [] = True"
| "allFresh e (c # cs) = (fresh e c \<and> allFresh (perform e c) cs)"

text \<open>The structural invariant of an estimation.\<close>

definition consistent :: "Estimation \<Rightarrow> bool" where
  "consistent e = (set (Ordering e) = dom (Tasks e) \<and> distinct (Ordering e))"

section \<open>Statistics (package stats, estimation.go)\<close>

text \<open>
  Go does not fix the order in which \<open>range\<close> visits a map. Each \<open>range\<close> statement over a map
  therefore takes the order the runtime picks as a parameter: a list of keys, which for an
  actual run names every key of the map exactly once (\<open>rangeOrder\<close>). \<open>rangeValues\<close> and
  \<open>rangeEntries\<close> are the values and the key/value pairs it then visits.
\<close>

definition rangeOrder :: "'k list \<Rightarrow> ('k \<rightharpoonup> 'v) \<Rightarrow> bool" where
  "rangeOrder ks m = (distinct ks \<and> set ks = dom m)"

definition rangeValues :: "'k list \<Rightarrow> ('k \<rightharpoonup> 'v) \<Rightarrow> 'v list" where
  "rangeValues ks m = List.map_filter m ks"

definition rangeEntries :: "'k list \<Rightarrow> ('k \<rightharpoonup> 'v) \<Rightarrow> ('k \<times> 'v) list" where
  "rangeEntries ks m = List.map_filter (\<lambda>k. map_option (Pair k) (m k)) ks"

record EstimationResult =
  WeightedMean :: real
  StandardDeviation :: real

definition CalculateProjectEstimation :: "TaskID list \<Rightarrow> Estimation \<Rightarrow> EstimationResult" where
  "CalculateProjectEstimation ks estimation =
     (case foldl (\<lambda>(totalMean, totalVariance) task.
                    (totalMean + Task_WeightedMean task,
                     totalVariance + (Task_StandardDeviation task)\<^sup>2))
                 (0, 0) (rangeValues ks (Tasks estimation)) of
        (totalMean, totalVariance) \<Rightarrow>
          \<lparr>WeightedMean = totalMean, StandardDeviation = sqrt totalVariance\<rparr>)"

definition CalculateCategoryEstimation ::
    "TaskID list \<Rightarrow> Estimation \<Rightarrow> string \<Rightarrow> EstimationResult" where
  "CalculateCategoryEstimation ks estimation categoryID =
     (case foldl (\<lambda>(totalMean, totalVariance) task.
                    if Category task = categoryID
                    then (totalMean + Task_WeightedMean task,
                          totalVariance + (Task_StandardDeviation task)\<^sup>2)
                    else (totalMean, totalVariance))
                 (0, 0) (rangeValues ks (Tasks estimation)) of
        (totalMean, totalVariance) \<Rightarrow>
          \<lparr>WeightedMean = totalMean, StandardDeviation = sqrt totalVariance\<rparr>)"

record CategoryDistribution =
  CategoryID :: string
  CategoryLabel :: string
  Time :: real
  Percentage :: real

text \<open>
  \<open>CalculateCategoryDistribution\<close>. The orders of its \<open>range\<close> statements are \<open>kp\<close> (inside
  \<open>CalculateProjectEstimation\<close>), \<open>cs\<close> (over \<open>config.TaskCategories\<close>), \<open>kc c\<close>
  (inside the one call of \<open>CalculateCategoryEstimation\<close> for category \<open>c\<close>) and \<open>kt\<close>
  (the second iteration, over \<open>estimation.Tasks\<close>). \<open>seenCategories\<close> is a
  \<open>map[string]bool\<close> that only ever stores \<open>true\<close>: a set. \<open>distributionEntry\<close> is the
  body both iterations share; the label is the only part that differs.
\<close>

definition distributionEntry ::
    "EstimationResult \<Rightarrow> EstimationResult \<Rightarrow> string \<Rightarrow> string \<Rightarrow> CategoryDistribution" where
  "distributionEntry projectEst catEst catID label =
     (let percentage = (if WeightedMean projectEst > 0
                        then (WeightedMean catEst / WeightedMean projectEst) * 100
                        else 0)
      in \<lparr>CategoryID = catID, CategoryLabel = label,
          Time = WeightedMean catEst, Percentage = percentage\<rparr>)"

definition configuredStep ::
    "(string \<Rightarrow> TaskID list) \<Rightarrow> Estimation \<Rightarrow> EstimationResult \<Rightarrow>
     CategoryDistribution list \<times> string set \<Rightarrow> string \<times> TaskCategory \<Rightarrow>
     CategoryDistribution list \<times> string set" where
  "configuredStep kc estimation projectEst state entry =
     (case (state, entry) of ((distributions, seenCategories), (catID, cat)) \<Rightarrow>
        (let catEst = CalculateCategoryEstimation (kc catID) estimation catID
         in (distributions @ [distributionEntry projectEst catEst catID (TaskCategory.Label cat)],
             insert catID seenCategories)))"

definition referencedStep ::
    "(string \<Rightarrow> TaskID list) \<Rightarrow> Estimation \<Rightarrow> Config \<Rightarrow> EstimationResult \<Rightarrow>
     CategoryDistribution list \<times> string set \<Rightarrow> Task \<Rightarrow>
     CategoryDistribution list \<times> string set" where
  "referencedStep kc estimation config projectEst state task =
     (case state of (distributions, seenCategories) \<Rightarrow>
        if Category task \<notin> seenCategories then
          (let catEst = CalculateCategoryEstimation (kc (Category task)) estimation (Category task);
               cat = GetTaskCategory config (Category task)
           in (distributions @
                 [distributionEntry projectEst catEst (Category task) (TaskCategory.Label cat)],
               insert (Category task) seenCategories))
        else (distributions, seenCategories))"

definition CalculateCategoryDistribution ::
    "TaskID list \<Rightarrow> string list \<Rightarrow> (string \<Rightarrow> TaskID list) \<Rightarrow> TaskID list \<Rightarrow>
     Estimation \<Rightarrow> Config \<Rightarrow> CategoryDistribution list" where
  "CalculateCategoryDistribution kp cs kc kt estimation config =
     (let projectEst = CalculateProjectEstimation kp estimation in
      if WeightedMean projectEst = 0 then []
      else
        (let configured = foldl (configuredStep kc estimation projectEst) ([], {})
                            (rangeEntries cs (Config.TaskCategories config));
             referenced = foldl (referencedStep kc estimation config projectEst) configured
                            (rangeValues kt (Tasks estimation))
         in fst referenced))"

section \<open>A worked project\<close>

text \<open>
  The project of the specification's end-to-end scenario (tasks A and B in one configured
  category), extended by a third task whose category is not configured. It is built by the
  operations above; the theorems below are instantiated at it.
\<close>

definition exampleTaskA :: Task where
  "exampleTaskA = SetEstimations (NewTask ''a0000001'' ''Task A'' ''dev'') 2 4 6 (33 / 100)"

definition exampleTaskB :: Task where
  "exampleTaskB = SetEstimations (NewTask ''b0000002'' ''Task B'' ''dev'') 1 2 3 (33 / 100)"

definition exampleTaskC :: Task where
  "exampleTaskC = SetEstimations (NewTask ''c0000003'' ''Task C'' ''ops'') 3 0 0 (33 / 100)"

definition exampleEstimation :: Estimation where
  "exampleEstimation =
     performAll (NewEstimation ''e0000001'' ''Project'' 0)
       [CallAddTask exampleTaskA 1, CallAddTask exampleTaskB 2, CallAddTask exampleTaskC 3]"

definition exampleConfig :: Config where
  "exampleConfig =
     \<lparr>Config.TaskCategories =
        [''dev'' \<mapsto> \<lparr>TaskCategory.ID = ''dev'', TaskCategory.Label = ''Development'',
                      CostPerTimeUnit = 500\<rparr>,
         ''qa'' \<mapsto> \<lparr>TaskCategory.ID = ''qa'', TaskCategory.Label = ''Testing'',
                     CostPerTimeUnit = 400\<rparr>],
      Config.TimeUnit = \<lparr>TimeUnit.Label = ''man-day'', Acronym = ''md''\<rparr>,
      Config.Currency = ''EUR'',
      Config.RoundUpEstimations = True,
      AutoEstimationMultiplier = 33 / 100\<rparr>"

section \<open>Notions used in the proofs\<close>

text \<open>
  The task stored under a key, the mean of a category taken over the keys of \<open>Tasks\<close>, and
  the categories met for the first time along a list, given those already seen.
\<close>

definition taskOf :: "Estimation \<Rightarrow> TaskID \<Rightarrow> Task" where
  "taskOf e k = the (Tasks e k)"

definition categoryMean :: "Estimation \<Rightarrow> string \<Rightarrow> real" where
  "categoryMean e c =
     (\<Sum>k\<in>dom (Tasks e). if Category (taskOf e k) = c then Task_WeightedMean (taskOf e k) else 0)"

fun unseen :: "string set \<Rightarrow> string list \<Rightarrow> string list" where
  "unseen seen [] = []"
| "unseen seen (c # cs) = (if c \<in> seen then unseen seen cs else c # unseen (insert c seen) cs)"

text \<open>What the auto-fill phase of \<open>SetEstimations\<close> establishes, and what the whole call does.\<close>

definition filled :: "real \<times> real \<times> real \<Rightarrow> bool" where
  "filled olp =
     (case olp of (ov, lv, pv) \<Rightarrow>
        0 \<le> ov \<and> 0 \<le> lv \<and> 0 \<le> pv \<and> (lv = 0 \<longrightarrow> ov = 0) \<and> (pv = 0 \<longrightarrow> lv = 0))"

definition ordered :: "real \<times> real \<times> real \<Rightarrow> bool" where
  "ordered olp = (case olp of (ov, lv, pv) \<Rightarrow> 0 \<le> ov \<and> ov \<le> lv \<and> lv \<le> pv)"

section \<open>Properties of SetEstimations\<close>

lemma Ceil_ge: "x \<le> Ceil x"
  by (simp add: Ceil_def)


lemma Floor_nonneg: "0 \<le> x \<Longrightarrow> 0 \<le> Floor x"
  by (simp add: Floor_def)

lemma Floor_zero: "Floor 0 = 0"
  by (simp add: Floor_def)

lemma scale_up_gt:
  assumes "0 < a" and "0 < m"
  shows "a < Ceil (a * (1 + m))"
proof -
  have "0 < a * m" using assms by simp
  then have "a < a * (1 + m)" by (simp add: algebra_simps)
  also have "\<dots> \<le> Ceil (a * (1 + m))" by (rule Ceil_ge)
  finally show ?thesis .
qed

lemma scale_down_nonneg:
  assumes "0 \<le> a" and "m < 1"
  shows "0 \<le> Floor (a * (1 - m))"
  using assms by (intro Floor_nonneg) simp

lemma autoFill_filled:
  assumes "0 \<le> ov" "0 \<le> lv" "0 \<le> pv" "0 < m" "m < 1"
  shows "filled (autoFill ov lv pv m)"
  using assms scale_up_gt[of ov m] scale_up_gt[of lv m] scale_up_gt[of "Ceil (ov * (1 + m))" m]
    scale_down_nonneg[of lv m] scale_down_nonneg[of pv m] scale_down_nonneg[of "Floor (pv * (1 - m))" m]
    Ceil_ge[of "(ov + pv) / 2"]
  unfolding filled_def autoFill_def Let_def
  by (auto simp: Floor_zero split: if_splits)

lemma enforce_ordered:
  assumes "filled (ov, lv, pv)" and "0 < m"
  shows "ordered (enforce (ov, lv, pv) m)"
proof -
  define l1 where "l1 = (if lv > 0 \<and> lv \<le> ov then Ceil (ov * (1 + m)) else lv)"
  define p1 where "p1 = (if pv > 0 \<and> pv \<le> l1 then Ceil (l1 * (1 + m)) else pv)"
  have res: "enforce (ov, lv, pv) m = (ov, l1, p1)"
    by (simp add: enforce_def l1_def p1_def Let_def)
  from assms(1) have nn: "0 \<le> ov" "0 \<le> lv" "0 \<le> pv"
    and zl: "lv = 0 \<Longrightarrow> ov = 0" and zp: "pv = 0 \<Longrightarrow> lv = 0"
    by (simp_all add: filled_def)
  have ol: "ov \<le> l1"
  proof (cases "lv > 0 \<and> lv \<le> ov")
    case True
    then have "0 < ov" by linarith
    with scale_up_gt[OF _ assms(2)] True show ?thesis by (simp add: l1_def less_imp_le)
  next
    case False
    with nn zl show ?thesis by (auto simp: l1_def)
  qed
  have lp: "l1 \<le> p1"
  proof (cases "pv > 0 \<and> pv \<le> l1")
    case True
    then have "0 < l1" by linarith
    with scale_up_gt[OF _ assms(2)] True show ?thesis by (simp add: p1_def less_imp_le)
  next
    case False
    have "pv = 0 \<Longrightarrow> l1 = 0" using zp zl by (simp add: l1_def)
    with False nn show ?thesis by (auto simp: p1_def)
  qed
  from nn ol lp show ?thesis by (simp add: res ordered_def)
qed

text \<open>
  C1. For every non-negative input triple and every multiplier strictly between 0 and 1, the
  estimations stored by \<open>SetEstimations\<close> are all non-negative and satisfy
  optimistic \<open>\<le>\<close> likely \<open>\<le>\<close> pessimistic.
\<close>

theorem SetEstimations_ordered:
  assumes "0 \<le> optimistic" and "0 \<le> likely" and "0 \<le> pessimistic"
    and "0 < multiplier" and "multiplier < 1"
  shows "0 \<le> Optimistic (Estimations (SetEstimations t optimistic likely pessimistic multiplier))
       \<and> 0 \<le> Likely (Estimations (SetEstimations t optimistic likely pessimistic multiplier))
       \<and> 0 \<le> Pessimistic (Estimations (SetEstimations t optimistic likely pessimistic multiplier))
       \<and> Optimistic (Estimations (SetEstimations t optimistic likely pessimistic multiplier))
           \<le> Likely (Estimations (SetEstimations t optimistic likely pessimistic multiplier))
       \<and> Likely (Estimations (SetEstimations t optimistic likely pessimistic multiplier))
           \<le> Pessimistic (Estimations (SetEstimations t optimistic likely pessimistic multiplier))"
proof -
  obtain a b c where af: "autoFill optimistic likely pessimistic multiplier = (a, b, c)"
    by (cases "autoFill optimistic likely pessimistic multiplier") auto
  obtain x y z where en: "enforce (a, b, c) multiplier = (x, y, z)"
    by (cases "enforce (a, b, c) multiplier") auto
  from autoFill_filled[OF assms] af have "filled (a, b, c)" by simp
  from enforce_ordered[OF this assms(4)] en have "0 \<le> x \<and> x \<le> y \<and> y \<le> z"
    by (simp add: ordered_def)
  then show ?thesis by (simp add: SetEstimations_def af en)
qed

theorem SetEstimations_ordered_witness:
  "(0::real) \<le> 5 \<and> (0::real) \<le> 3 \<and> (0::real) \<le> 4 \<and> (0::real) < 33 / 100 \<and> (33 / 100 :: real) < 1
   \<and> Estimations (SetEstimations (NewTask ''a0000001'' ''Task A'' ''dev'') 5 3 4 (33 / 100))
       = \<lparr>Optimistic = 5, Likely = 7, Pessimistic = 10\<rparr>
   \<and> 0 \<le> Optimistic (Estimations (SetEstimations (NewTask ''a0000001'' ''Task A'' ''dev'') 5 3 4 (33 / 100)))
   \<and> Optimistic (Estimations (SetEstimations (NewTask ''a0000001'' ''Task A'' ''dev'') 5 3 4 (33 / 100)))
       \<le> Likely (Estimations (SetEstimations (NewTask ''a0000001'' ''Task A'' ''dev'') 5 3 4 (33 / 100)))
   \<and> Likely (Estimations (SetEstimations (NewTask ''a0000001'' ''Task A'' ''dev'') 5 3 4 (33 / 100)))
       \<le> Pessimistic (Estimations (SetEstimations (NewTask ''a0000001'' ''Task A'' ''dev'') 5 3 4 (33 / 100)))"
  using SetEstimations_ordered [of 5 3 4 "33 / 100" "NewTask ''a0000001'' ''Task A'' ''dev''"]
  by (simp add: SetEstimations_def enforce_def autoFill_def Let_def Ceil_def)

text \<open>
  C3, for strictly increasing triples. For every triple with
  0 < optimistic < likely < pessimistic and every multiplier strictly between 0 and 1,
  \<open>SetEstimations\<close> stores the three values unchanged.
\<close>

theorem SetEstimations_identity_strict:
  assumes "0 < optimistic" and "optimistic < likely" and "likely < pessimistic"
    and "0 < multiplier" and "multiplier < 1"
  shows "Estimations (SetEstimations t optimistic likely pessimistic multiplier) =
           \<lparr>Optimistic = optimistic, Likely = likely, Pessimistic = pessimistic\<rparr>"
  using assms(1-3) by (simp add: SetEstimations_def enforce_def autoFill_def Let_def)

theorem SetEstimations_identity_strict_witness:
  "(0::real) < 2 \<and> (2::real) < 4 \<and> (4::real) < 6 \<and> (0::real) < 33 / 100 \<and> (33 / 100 :: real) < 1
   \<and> Estimations (SetEstimations (NewTask ''a0000001'' ''Task A'' ''dev'') 2 4 6 (33 / 100))
       = \<lparr>Optimistic = 2, Likely = 4, Pessimistic = 6\<rparr>"
  using SetEstimations_identity_strict [of 2 4 6 "33 / 100" "NewTask ''a0000001'' ''Task A'' ''dev''"]
  by simp

text \<open>
  C3 does not extend to triples with 0 < optimistic \<open>\<le>\<close> likely \<open>\<le>\<close> pessimistic in which
  two neighbouring values are equal: the forward propagation replaces a likely value that
  is \<open>\<le>\<close> the optimistic one, and a pessimistic value that is \<open>\<le>\<close> the likely one. With
  multiplier 0.33 the triple (4, 4, 9) becomes (4, 6, 9) and the triple (4, 6, 6) becomes
  (4, 6, 8).
\<close>

theorem SetEstimations_identity_counterexample:
  "(0::real) < 4 \<and> (4::real) \<le> 4 \<and> (4::real) \<le> 9 \<and> (0::real) < 33 / 100 \<and> (33 / 100 :: real) < 1
   \<and> Estimations (SetEstimations (NewTask ''a0000001'' ''Task A'' ''dev'') 4 4 9 (33 / 100))
       = \<lparr>Optimistic = 4, Likely = 6, Pessimistic = 9\<rparr>
   \<and> Estimations (SetEstimations (NewTask ''a0000001'' ''Task A'' ''dev'') 4 4 9 (33 / 100))
       \<noteq> \<lparr>Optimistic = 4, Likely = 4, Pessimistic = 9\<rparr>
   \<and> (0::real) < 4 \<and> (4::real) \<le> 6 \<and> (6::real) \<le> 6
   \<and> Estimations (SetEstimations (NewTask ''a0000001'' ''Task A'' ''dev'') 4 6 6 (33 / 100))
       = \<lparr>Optimistic = 4, Likely = 6, Pessimistic = 8\<rparr>
   \<and> Estimations (SetEstimations (NewTask ''a0000001'' ''Task A'' ''dev'') 4 6 6 (33 / 100))
       \<noteq> \<lparr>Optimistic = 4, Likely = 6, Pessimistic = 6\<rparr>"
  by (simp add: SetEstimations_def enforce_def autoFill_def Let_def Ceil_def)

text \<open>
  C10. Whenever the optimistic input is strictly positive, \<open>SetEstimations\<close> stores exactly
  that value as the optimistic estimate, for every likely and pessimistic input and every
  multiplier: no branch of the auto-fill and no step of the forward propagation assigns
  \<open>o\<close> when it was given.
\<close>

theorem SetEstimations_keeps_optimistic:
  "0 < optimistic \<Longrightarrow>
   Optimistic (Estimations (SetEstimations t optimistic likely pessimistic multiplier)) = optimistic"
  by (simp add: SetEstimations_def enforce_def autoFill_def Let_def)

theorem SetEstimations_keeps_optimistic_witness:
  "(0::real) < 4 \<and>
   Optimistic (Estimations (SetEstimations (NewTask ''a1b2c3d4'' ''api'' ''development'') 4 0 0 (33 / 100))) = 4"
  using SetEstimations_keeps_optimistic [of 4 "NewTask ''a1b2c3d4'' ''api'' ''development''" 0 0 "33 / 100"]
  by simp

section \<open>Properties of SetEstimations in float64 arithmetic\<close>

subsection \<open>The rounding\<close>

lemma SetEstimations64_exact:
  "SetEstimations64 (\<lambda>x. x) t optimistic likely pessimistic multiplier
     = SetEstimations t optimistic likely pessimistic multiplier"
  by (simp add: SetEstimations64_def SetEstimations_def autoFill64_def autoFill_def
      enforce64_def enforce_def)


lemma binary64_scaled:
  assumes s: "s = 2 powr of_int k" and lo: "2 ^ 52 * s \<le> \<bar>x\<bar>" and hi: "\<bar>x\<bar> < 2 ^ 53 * s"
  shows "binary64 x = of_int (rne (x / s)) * s"
proof -
  have spos: "0 < s" by (simp add: s)
  then have "0 < 2 ^ 52 * s" by simp
  with lo have xpos: "0 < \<bar>x\<bar>" by linarith
  have lo': "2 powr (of_int (k + 52)) \<le> \<bar>x\<bar>"
    using lo by (simp add: s powr_add algebra_simps)
  have hi': "\<bar>x\<bar> < 2 powr (of_int (k + 52) + 1)"
    using hi by (simp add: s powr_add algebra_simps)
  from lo' hi' have "\<lfloor>log 2 \<bar>x\<bar>\<rfloor> = k + 52"
    using floor_log_eq_powr_iff[OF xpos, of 2 "k + 52"] by simp
  with xpos show ?thesis by (simp add: binary64_def s)
qed









subsection \<open>The default multiplier\<close>






subsection \<open>Scaling down stays below\<close>




subsection \<open>One value provided\<close>




subsection \<open>Evaluating the rounding\<close>

text \<open>
  Where exact and rounded arithmetic part: with the multiplier 0.33 and only the likely
  value 300 provided, 1 - 0.33 rounds to a value just below 0.67 and the product to a
  value just below 201, so the optimistic value is 200, while exact arithmetic gives
  floor(201) = 201. With the multiplier 0.1 and only the optimistic value 100 provided,
  the product is just above 110 and the likely value is 111, not 110.
\<close>

lemma binary64_below:
  assumes "2 ^ 52 \<le> \<bar>x\<bar> * 2 ^ n" and "\<bar>x\<bar> * 2 ^ n < 2 ^ 53"
  shows "binary64 x = of_int (rne (x * 2 ^ n)) / 2 ^ n"
proof -
  have s: "(1::real) / 2 ^ n = 2 powr of_int (- int n)"
    by (simp add: powr_minus_divide powr_realpow)
  have "binary64 x = of_int (rne (x / (1 / 2 ^ n))) * (1 / 2 ^ n)"
    using assms by (intro binary64_scaled[OF s]) (simp_all add: field_simps)
  then show ?thesis by simp
qed

lemma binary64_above:
  assumes "2 ^ 52 * 2 ^ n \<le> \<bar>x\<bar>" and "\<bar>x\<bar> < 2 ^ 53 * 2 ^ n"
  shows "binary64 x = of_int (rne (x / 2 ^ n)) * 2 ^ n"
proof -
  have s: "(2::real) ^ n = 2 powr of_int (int n)"
    by (simp add: powr_realpow)
  show ?thesis using assms by (intro binary64_scaled[OF s])
qed

lemma binary64_033: "binary64 (33 / 100) = 5944751508129055 / 2 ^ 54"
  by (subst binary64_below[of _ 54]) (simp_all add: rne_def)

lemma binary64_033_down: "binary64 (1 - 5944751508129055 / 2 ^ 54) = 6034823500676464 / 2 ^ 53"
  by (subst binary64_below[of _ 53]) (simp_all add: rne_def)

lemma binary64_033_up: "binary64 (1 + 5944751508129055 / 2 ^ 54) = 5989787504402760 / 2 ^ 52"
  by (subst binary64_below[of _ 52]) (simp_all add: rne_def)

lemma binary64_300_down:
  "binary64 (300 * (6034823500676464 / 2 ^ 53)) = 7072058789855231 / 2 ^ 45"
  by (subst binary64_below[of _ 45]) (simp_all add: rne_def)

lemma binary64_300_up:
  "binary64 (300 * (5989787504402760 / 2 ^ 52)) = 399"
  by (subst binary64_below[of _ 44]) (simp_all add: rne_def)

lemma binary64_01: "binary64 (1 / 10) = 3602879701896397 / 2 ^ 55"
  by (subst binary64_below[of _ 56]) (simp_all add: rne_def)

lemma binary64_01_up: "binary64 (1 + 3602879701896397 / 2 ^ 55) = 4953959590107546 / 2 ^ 52"
  by (subst binary64_below[of _ 52]) (simp_all add: rne_def)

lemma binary64_100_up:
  "binary64 (100 * (4953959590107546 / 2 ^ 52)) = 7740561859543041 / 2 ^ 46"
  by (subst binary64_below[of _ 46]) (simp_all add: rne_def)

lemma binary64_111_up:
  "binary64 (111 * (4953959590107546 / 2 ^ 52)) = 8592023664092775 / 2 ^ 46"
  by (subst binary64_below[of _ 46]) (simp_all add: rne_def)

lemma float64_300:
  "Floor (binary64 (300 * binary64 (1 - binary64 (33 / 100)))) = 200"
  "Ceil (binary64 (300 * binary64 (1 + binary64 (33 / 100)))) = 399"
proof -
  have e200: "binary64 (300 * binary64 (1 - binary64 (33 / 100))) = 7072058789855231 / 2 ^ 45"
    by (simp only: binary64_033 binary64_033_down binary64_300_down)
  have v200: "Floor (7072058789855231 / 2 ^ 45) = 200" by (simp add: Floor_def)
  show "Floor (binary64 (300 * binary64 (1 - binary64 (33 / 100)))) = 200"
    by (simp only: e200 v200)
  have e399: "binary64 (300 * binary64 (1 + binary64 (33 / 100))) = 399"
    by (simp only: binary64_033 binary64_033_up binary64_300_up)
  have v399: "Ceil 399 = 399" by (simp add: Ceil_def)
  show "Ceil (binary64 (300 * binary64 (1 + binary64 (33 / 100)))) = 399"
    by (simp only: e399 v399)
qed

lemma SetEstimations64_at_300:
  "Estimations (SetEstimations64 binary64 t 0 300 0 (binary64 (33 / 100)))
     = \<lparr>Optimistic = 200, Likely = 300, Pessimistic = 399\<rparr>"
  by (simp add: SetEstimations64_def enforce64_def autoFill64_def Let_def float64_300)

lemma SetEstimations_at_300:
  "Estimations (SetEstimations t 0 300 0 (33 / 100))
     = \<lparr>Optimistic = 201, Likely = 300, Pessimistic = 399\<rparr>"
  by (simp add: SetEstimations_def enforce_def autoFill_def Let_def Ceil_def Floor_def)

lemma float64_100:
  "Ceil (binary64 (100 * binary64 (1 + binary64 (1 / 10)))) = 111"
  "Ceil (binary64 (111 * binary64 (1 + binary64 (1 / 10)))) = 123"
proof -
  have e111: "binary64 (100 * binary64 (1 + binary64 (1 / 10))) = 7740561859543041 / 2 ^ 46"
    by (simp only: binary64_01 binary64_01_up binary64_100_up)
  have v111: "Ceil (7740561859543041 / 2 ^ 46) = 111" by (simp add: Ceil_def)
  show "Ceil (binary64 (100 * binary64 (1 + binary64 (1 / 10)))) = 111"
    by (simp only: e111 v111)
  have e123: "binary64 (111 * binary64 (1 + binary64 (1 / 10))) = 8592023664092775 / 2 ^ 46"
    by (simp only: binary64_01 binary64_01_up binary64_111_up)
  have v123: "Ceil (8592023664092775 / 2 ^ 46) = 123" by (simp add: Ceil_def)
  show "Ceil (binary64 (111 * binary64 (1 + binary64 (1 / 10)))) = 123"
    by (simp only: e123 v123)
qed

lemma SetEstimations64_at_100:
  "Estimations (SetEstimations64 binary64 t 100 0 0 (binary64 (1 / 10)))
     = \<lparr>Optimistic = 100, Likely = 111, Pessimistic = 123\<rparr>"
  by (simp add: SetEstimations64_def enforce64_def autoFill64_def Let_def float64_100)

lemma SetEstimations_at_100:
  "Estimations (SetEstimations t 100 0 0 (1 / 10))
     = \<lparr>Optimistic = 100, Likely = 110, Pessimistic = 121\<rparr>"
  by (simp add: SetEstimations_def enforce_def autoFill_def Let_def Ceil_def)

subsection \<open>The single-value rules\<close>



section \<open>The ordering of an estimation\<close>

lemma indexOf_None: "indexOf xs t = None \<longleftrightarrow> t \<notin> set xs"
  by (induction xs) auto

lemma indexOf_Some:
  "indexOf xs t = Some i \<Longrightarrow> i < length xs \<and> xs ! i = t \<and> t \<notin> set (take i xs)"
proof (induction xs arbitrary: i)
  case Nil
  then show ?case by simp
next
  case (Cons x xs)
  show ?case
  proof (cases "x = t")
    case True
    with Cons.prems show ?thesis by simp
  next
    case False
    with Cons.prems obtain j where j: "indexOf xs t = Some j" and i: "i = Suc j"
      by auto
    from Cons.IH[OF j] False show ?thesis by (simp add: i)
  qed
qed

lemma removeAt_indexOf: "indexOf xs t = Some i \<Longrightarrow> removeAt i xs = remove1 t xs"
proof (induction xs arbitrary: i)
  case Nil
  then show ?case by simp
next
  case (Cons x xs)
  show ?case
  proof (cases "x = t")
    case True
    with Cons.prems show ?thesis by (simp add: removeAt_def)
  next
    case False
    with Cons.prems obtain j where j: "indexOf xs t = Some j" and i: "i = Suc j"
      by auto
    from Cons.IH[OF j] False show ?thesis by (simp add: i removeAt_def)
  qed
qed

lemma distinct_take_drop:
  "distinct (take k s) \<and> distinct (drop k s) \<and> set (take k s) \<inter> set (drop k s) = {} \<longleftrightarrow> distinct s"
  unfolding distinct_append[symmetric] by simp

lemma set_take_drop: "set (take k s) \<union> set (drop k s) = set s"
  unfolding set_append[symmetric] by simp

lemma set_insertAt: "set (insertAt k x s) = insert x (set s)"
  unfolding insertAt_def by (simp add: set_take_drop)

lemma distinct_insertAt: "distinct (insertAt k x s) \<longleftrightarrow> x \<notin> set s \<and> distinct s"
proof -
  have "distinct (insertAt k x s) \<longleftrightarrow>
          x \<notin> set (take k s) \<union> set (drop k s) \<and> (distinct (take k s) \<and> distinct (drop k s)
          \<and> set (take k s) \<inter> set (drop k s) = {})"
    unfolding insertAt_def by auto
  then show ?thesis
    unfolding set_take_drop distinct_take_drop .
qed

lemma consistent_NewEstimation: "consistent (NewEstimation g label now)"
  by (simp add: consistent_def NewEstimation_def)

lemma consistent_AddTask:
  "consistent e \<Longrightarrow> Tasks e (Task.ID task) = None \<Longrightarrow> consistent (AddTask e task now)"
  by (auto simp: consistent_def AddTask_def)

lemma consistent_RemoveTask: "consistent e \<Longrightarrow> consistent (RemoveTask e tid now)"
proof (cases "indexOf (Ordering e) tid")
  case None
  assume c: "consistent e"
  from None have "tid \<notin> set (Ordering e)" by (simp add: indexOf_None)
  with c None show ?thesis by (auto simp: consistent_def RemoveTask_def)
next
  case (Some i)
  assume c: "consistent e"
  from removeAt_indexOf[OF Some] c Some show ?thesis
    by (auto simp: consistent_def RemoveTask_def)
qed

lemma MoveTask_cases:
  "MoveTask e tid offset now = (False, e) \<or>
   (\<exists>i k. indexOf (Ordering e) tid = Some i \<and>
      MoveTask e tid offset now =
        (True, e\<lparr>Ordering := insertAt k tid (removeAt i (Ordering e)), UpdatedAt := now\<rparr>))"
  unfolding MoveTask_def Let_def by (cases "indexOf (Ordering e) tid") auto

lemma consistent_MoveTask:
  assumes "consistent e"
  shows "consistent (snd (MoveTask e tid offset now))"
  using MoveTask_cases[of e tid offset now]
proof (elim disjE exE conjE)
  assume "MoveTask e tid offset now = (False, e)"
  with assms show ?thesis by simp
next
  fix i k
  assume i: "indexOf (Ordering e) tid = Some i"
    and m: "MoveTask e tid offset now =
        (True, e\<lparr>Ordering := insertAt k tid (removeAt i (Ordering e)), UpdatedAt := now\<rparr>)"
  from indexOf_Some[OF i] have "tid \<in> set (Ordering e)" by auto
  with assms show ?thesis
    by (auto simp: m consistent_def removeAt_indexOf[OF i] set_insertAt distinct_insertAt)
qed

lemma consistent_perform: "consistent e \<Longrightarrow> fresh e c \<Longrightarrow> consistent (perform e c)"
  by (cases c) (simp_all add: consistent_AddTask consistent_RemoveTask consistent_MoveTask)

lemma consistent_performAll:
  "consistent e \<Longrightarrow> allFresh e cs \<Longrightarrow> consistent (performAll e cs)"
  by (induction cs arbitrary: e) (simp_all add: consistent_perform)

subsection \<open>The worked project, evaluated\<close>

lemma SetEstimations_ID: "Task.ID (SetEstimations t a b c m) = Task.ID t"
  by (simp add: SetEstimations_def split: prod.split)

lemma exampleTask_IDs:
  "Task.ID exampleTaskA = ''a0000001''" "Task.ID exampleTaskB = ''b0000002''"
  "Task.ID exampleTaskC = ''c0000003''"
  by (simp_all add: exampleTaskA_def exampleTaskB_def exampleTaskC_def SetEstimations_ID NewTask_def)

lemma exampleEstimation_Ordering:
  "Ordering exampleEstimation = [''a0000001'', ''b0000002'', ''c0000003'']"
  by (simp add: exampleEstimation_def NewEstimation_def AddTask_def exampleTask_IDs)

lemma exampleEstimation_Tasks:
  "Tasks exampleEstimation =
     [''a0000001'' \<mapsto> exampleTaskA, ''b0000002'' \<mapsto> exampleTaskB, ''c0000003'' \<mapsto> exampleTaskC]"
  by (simp add: exampleEstimation_def NewEstimation_def AddTask_def exampleTask_IDs)

lemma exampleEstimation_UpdatedAt: "UpdatedAt exampleEstimation = 3"
  by (simp add: exampleEstimation_def NewEstimation_def AddTask_def)

lemma exampleEstimation_allFresh:
  "allFresh (NewEstimation ''e0000001'' ''Project'' 0)
       [CallAddTask exampleTaskA 1, CallAddTask exampleTaskB 2, CallAddTask exampleTaskC 3]"
  by (simp add: NewEstimation_def AddTask_def exampleTask_IDs)

subsection \<open>The structural invariant\<close>

text \<open>
  C2. Starting from the empty estimation that \<open>NewEstimation\<close> returns, after any sequence
  of \<open>AddTask\<close>, \<open>RemoveTask\<close> and \<open>MoveTask\<close> calls in which every added task has an
  identifier that is not yet a key of \<open>Tasks\<close>, the identifiers in \<open>Ordering\<close> are exactly
  the keys of \<open>Tasks\<close>, and \<open>Ordering\<close> has no duplicates.
\<close>

theorem ordering_matches_tasks:
  "allFresh (NewEstimation generated label now) calls \<Longrightarrow>
   set (Ordering (performAll (NewEstimation generated label now) calls))
     = dom (Tasks (performAll (NewEstimation generated label now) calls))
   \<and> distinct (Ordering (performAll (NewEstimation generated label now) calls))"
  using consistent_performAll[OF consistent_NewEstimation] by (simp add: consistent_def)

theorem ordering_matches_tasks_witness:
  "allFresh (NewEstimation ''e0000001'' ''Project'' 0)
     [CallAddTask exampleTaskA 1, CallAddTask exampleTaskB 2, CallAddTask exampleTaskC 3,
      CallMoveTask ''c0000003'' (- 2) 4, CallRemoveTask ''a0000001'' 5]
   \<and> Ordering (performAll (NewEstimation ''e0000001'' ''Project'' 0)
     [CallAddTask exampleTaskA 1, CallAddTask exampleTaskB 2, CallAddTask exampleTaskC 3,
      CallMoveTask ''c0000003'' (- 2) 4, CallRemoveTask ''a0000001'' 5]) = [''c0000003'', ''b0000002'']
   \<and> set (Ordering (performAll (NewEstimation ''e0000001'' ''Project'' 0)
     [CallAddTask exampleTaskA 1, CallAddTask exampleTaskB 2, CallAddTask exampleTaskC 3,
      CallMoveTask ''c0000003'' (- 2) 4, CallRemoveTask ''a0000001'' 5]))
     = dom (Tasks (performAll (NewEstimation ''e0000001'' ''Project'' 0)
     [CallAddTask exampleTaskA 1, CallAddTask exampleTaskB 2, CallAddTask exampleTaskC 3,
      CallMoveTask ''c0000003'' (- 2) 4, CallRemoveTask ''a0000001'' 5]))"
  using ordering_matches_tasks[of "''e0000001''" "''Project''" 0
     "[CallAddTask exampleTaskA 1, CallAddTask exampleTaskB 2, CallAddTask exampleTaskC 3,
      CallMoveTask ''c0000003'' (- 2) 4, CallRemoveTask ''a0000001'' 5]"]
  by (simp add: NewEstimation_def AddTask_def RemoveTask_def MoveTask_def removeAt_def insertAt_def
      exampleTask_IDs Let_def)

subsection \<open>MoveTask: the bounds check\<close>

lemma sint_index:
  assumes "i < 2 ^ 63"
  shows "sint (word_of_nat i :: 64 word) = int i"
proof -
  from assms have "int i < 2 ^ 63"
    by (metis of_nat_less_iff of_nat_numeral of_nat_power)
  moreover have "- (2 ^ 63) \<le> int i" by simp
  ultimately have "signed_take_bit (63::nat) (int i) = int i"
    by (rule signed_take_bit_int_eq_self[rotated])
  then show ?thesis by (simp add: signed_of_nat)
qed

lemma sint_newIndex:
  assumes "i < 2 ^ 63"
  shows "sint ((word_of_nat i :: 64 word) + offset) = signed_take_bit (63::nat) (int i + sint offset)"
  using sint_index[OF assms] by (simp add: sint_word_ariths)

lemma newIndex_in_range:
  assumes "i < 2 ^ 63" and "0 \<le> int i + sint offset" and "int i + sint offset < 2 ^ 63"
  shows "sint ((word_of_nat i :: 64 word) + offset) = int i + sint offset"
proof -
  have "(0::int) < 2 ^ 63" by simp
  with assms(2) have "- (2 ^ 63) \<le> int i + sint offset" by linarith
  from signed_take_bit_int_eq_self[OF this assms(3)] show ?thesis
    by (simp only: sint_newIndex[OF assms(1)])
qed

lemma newIndex_overflow:
  assumes "i < 2 ^ 63" and "2 ^ 63 \<le> int i + sint (offset :: 64 word)"
  shows "sint ((word_of_nat i :: 64 word) + offset) < 0"
proof -
  from assms(1) have i: "int i < 2 ^ 63"
    by (metis of_nat_less_iff of_nat_numeral of_nat_power)
  have "sint offset < 2 ^ 63" using sint_lt[of offset] by simp
  with i have "int i + sint offset - 2 ^ Suc 63 < 0" by simp
  with signed_take_bit_int_less_eq[OF assms(2)] show ?thesis
    by (simp only: sint_newIndex[OF assms(1)])
qed

lemma newIndex_negative:
  assumes "i < 2 ^ 63" and "int i + sint (offset :: 64 word) < 0"
  shows "sint ((word_of_nat i :: 64 word) + offset) < 0"
proof -
  have "- (2 ^ 63) \<le> sint offset" using sint_ge[of offset] by simp
  then have lo: "- (2 ^ 63) \<le> int i + sint offset" by linarith
  have "(0::int) < 2 ^ 63" by simp
  with assms(2) have hi: "int i + sint offset < 2 ^ 63" by linarith
  from signed_take_bit_int_eq_self[OF lo hi] assms(2) show ?thesis
    by (simp only: sint_newIndex[OF assms(1)])
qed

text \<open>The bounds check of \<open>MoveTask\<close> decides on the mathematical destination index.\<close>

lemma bounds_check:
  assumes "i < n" and "n < 2 ^ 63"
  shows "(sint ((word_of_nat i :: 64 word) + offset) < 0 \<or> sint ((word_of_nat i :: 64 word) + offset) \<ge> int n)
         \<longleftrightarrow> (int i + sint offset < 0 \<or> int i + sint offset \<ge> int n)"
proof -
  from assms have i: "i < 2 ^ 63" by linarith
  from assms(2) have n: "int n < 2 ^ 63"
    by (metis of_nat_less_iff of_nat_numeral of_nat_power)
  consider "int i + sint offset < 0" | "0 \<le> int i + sint offset" "int i + sint offset < 2 ^ 63"
    | "2 ^ 63 \<le> int i + sint offset" by linarith
  then show ?thesis
  proof cases
    case 1
    with newIndex_negative[OF i] show ?thesis by simp
  next
    case 2
    with newIndex_in_range[OF i] show ?thesis by simp
  next
    case 3
    with newIndex_overflow[OF i] n show ?thesis by simp
  qed
qed

lemma indexOf_in_set: "tid \<in> set xs \<Longrightarrow> \<exists>i. indexOf xs tid = Some i"
  using indexOf_None[of xs tid] by (cases "indexOf xs tid") auto

lemma indexOf_last:
  "xs \<noteq> [] \<Longrightarrow> distinct xs \<Longrightarrow> indexOf xs (last xs) = Some (length xs - 1)"
proof (induction xs)
  case Nil
  then show ?case by simp
next
  case (Cons x xs)
  show ?case
  proof (cases "xs = []")
    case True
    then show ?thesis by simp
  next
    case False
    with Cons.prems have "x \<noteq> last xs" by auto
    moreover from Cons.IH[OF False] Cons.prems have "indexOf xs (last xs) = Some (length xs - 1)"
      by simp
    moreover from False have "Suc (length xs - 1) = length xs" by (cases xs) auto
    ultimately show ?thesis using False by simp
  qed
qed

lemma insertAt_removeAt:
  assumes "i < length xs"
  shows "insertAt i (xs ! i) (removeAt i xs) = xs"
proof -
  from assms have t: "take i (removeAt i xs) = take i xs"
    by (simp add: removeAt_def)
  from assms have d: "drop i (removeAt i xs) = drop (Suc i) xs"
    by (simp add: removeAt_def)
  show ?thesis
    unfolding insertAt_def t d using id_take_nth_drop[OF assms] by simp
qed

lemma MoveTask_absent:
  "tid \<notin> set (Ordering e) \<Longrightarrow> MoveTask e tid offset now = (False, e)"
  by (simp add: MoveTask_def indexOf_None[symmetric])

lemma MoveTask_out_of_range:
  assumes len: "length (Ordering e) < 2 ^ 63"
    and idx: "indexOf (Ordering e) tid = Some i"
    and out: "int i + sint offset < 0 \<or> int (length (Ordering e)) \<le> int i + sint offset"
  shows "MoveTask e tid offset now = (False, e)"
proof -
  from indexOf_Some[OF idx] have "i < length (Ordering e)" by simp
  from bounds_check[OF this len, of offset] out
  have "sint ((word_of_nat i :: 64 word) + offset) < 0
        \<or> int (length (Ordering e)) \<le> sint ((word_of_nat i :: 64 word) + offset)"
    by simp
  then show ?thesis unfolding MoveTask_def Let_def idx by auto
qed

lemma MoveTask_zero:
  assumes len: "length (Ordering e) < 2 ^ 63" and mem: "tid \<in> set (Ordering e)"
  shows "MoveTask e tid 0 now = (True, e\<lparr>UpdatedAt := now\<rparr>)"
proof -
  from indexOf_in_set[OF mem] obtain i where idx: "indexOf (Ordering e) tid = Some i" ..
  from indexOf_Some[OF idx] have i: "i < length (Ordering e)" and nth: "Ordering e ! i = tid"
    by simp_all
  from i len have "i < 2 ^ 63" by linarith
  from sint_index[OF this] have s: "sint (word_of_nat i :: 64 word) = int i" .
  from insertAt_removeAt[OF i] nth
  have "insertAt i tid (removeAt i (Ordering e)) = Ordering e" by simp
  with i show ?thesis unfolding MoveTask_def Let_def idx by (simp add: s)
qed

lemma MoveTask_first_up:
  assumes "Ordering e \<noteq> []"
  shows "MoveTask e (hd (Ordering e)) (- 1) now = (False, e)"
proof -
  from assms obtain x xs where "Ordering e = x # xs" by (cases "Ordering e") auto
  then show ?thesis by (simp add: MoveTask_def)
qed

lemma MoveTask_last_down:
  assumes len: "length (Ordering e) < 2 ^ 63"
    and ne: "Ordering e \<noteq> []" and dist: "distinct (Ordering e)"
  shows "MoveTask e (last (Ordering e)) 1 now = (False, e)"
proof -
  from ne have "0 < length (Ordering e)" by simp
  then have "int (length (Ordering e)) \<le> int (length (Ordering e) - 1) + sint (1 :: 64 word)"
    by simp
  with MoveTask_out_of_range[OF len indexOf_last[OF ne dist]] show ?thesis by blast
qed

text \<open>
  C7. On an estimation whose ordering has a length that a Go slice can have (below 2^63):
  \<open>MoveTask\<close> returns false and leaves the estimation, hence \<open>Ordering\<close> and \<open>Tasks\<close>,
  unchanged when the identifier is absent from the ordering, and when the destination
  index (current index + offset) is negative or at least the length; with offset 0 on a
  present identifier it returns true and leaves \<open>Ordering\<close> and \<open>Tasks\<close> as they were;
  moving the first task by -1 returns false and changes nothing, and so does moving the
  last task by +1 in an ordering without duplicates.
\<close>

theorem MoveTask_failure_cases:
  assumes "length (Ordering e) < 2 ^ 63"
  shows "(tid \<notin> set (Ordering e) \<longrightarrow> MoveTask e tid offset now = (False, e))
       \<and> (indexOf (Ordering e) tid = Some i
            \<and> (int i + sint offset < 0 \<or> int (length (Ordering e)) \<le> int i + sint offset)
          \<longrightarrow> MoveTask e tid offset now = (False, e))
       \<and> (tid \<in> set (Ordering e)
          \<longrightarrow> fst (MoveTask e tid 0 now)
              \<and> Ordering (snd (MoveTask e tid 0 now)) = Ordering e
              \<and> Tasks (snd (MoveTask e tid 0 now)) = Tasks e)
       \<and> (Ordering e \<noteq> [] \<longrightarrow> MoveTask e (hd (Ordering e)) (- 1) now = (False, e))
       \<and> (Ordering e \<noteq> [] \<and> distinct (Ordering e)
          \<longrightarrow> MoveTask e (last (Ordering e)) 1 now = (False, e))"
proof (intro conjI impI)
  assume "tid \<notin> set (Ordering e)"
  then show "MoveTask e tid offset now = (False, e)" by (rule MoveTask_absent)
next
  assume "indexOf (Ordering e) tid = Some i
            \<and> (int i + sint offset < 0 \<or> int (length (Ordering e)) \<le> int i + sint offset)"
  with MoveTask_out_of_range[OF assms] show "MoveTask e tid offset now = (False, e)" by blast
next
  assume m: "tid \<in> set (Ordering e)"
  from MoveTask_zero[OF assms m] show "fst (MoveTask e tid 0 now)" by simp
  from MoveTask_zero[OF assms m] show "Ordering (snd (MoveTask e tid 0 now)) = Ordering e" by simp
  from MoveTask_zero[OF assms m] show "Tasks (snd (MoveTask e tid 0 now)) = Tasks e" by simp
next
  assume "Ordering e \<noteq> []"
  then show "MoveTask e (hd (Ordering e)) (- 1) now = (False, e)" by (rule MoveTask_first_up)
next
  assume "Ordering e \<noteq> [] \<and> distinct (Ordering e)"
  with MoveTask_last_down[OF assms] show "MoveTask e (last (Ordering e)) 1 now = (False, e)"
    by blast
qed

theorem MoveTask_failure_cases_witness:
  "length (Ordering exampleEstimation) < 2 ^ 63
   \<and> ''zzzzzzzz'' \<notin> set (Ordering exampleEstimation)
   \<and> MoveTask exampleEstimation ''zzzzzzzz'' 1 9 = (False, exampleEstimation)
   \<and> indexOf (Ordering exampleEstimation) ''b0000002'' = Some 1
   \<and> int (length (Ordering exampleEstimation)) \<le> int 1 + sint (2 :: 64 word)
   \<and> MoveTask exampleEstimation ''b0000002'' 2 9 = (False, exampleEstimation)
   \<and> ''b0000002'' \<in> set (Ordering exampleEstimation)
   \<and> fst (MoveTask exampleEstimation ''b0000002'' 0 9)
   \<and> Ordering (snd (MoveTask exampleEstimation ''b0000002'' 0 9)) = Ordering exampleEstimation
   \<and> Ordering exampleEstimation \<noteq> [] \<and> distinct (Ordering exampleEstimation)
   \<and> hd (Ordering exampleEstimation) = ''a0000001''
   \<and> MoveTask exampleEstimation ''a0000001'' (- 1) 9 = (False, exampleEstimation)
   \<and> last (Ordering exampleEstimation) = ''c0000003''
   \<and> MoveTask exampleEstimation ''c0000003'' 1 9 = (False, exampleEstimation)"
  using MoveTask_failure_cases[of exampleEstimation "''zzzzzzzz''" 1 9 0]
    MoveTask_failure_cases[of exampleEstimation "''b0000002''" 2 9 1]
  by (simp add: exampleEstimation_Ordering)

subsection \<open>RemoveTask and the last-update timestamp\<close>

text \<open>What \<open>RemoveTask\<close> does with an identifier that is not a key of \<open>Tasks\<close>.\<close>

lemma RemoveTask_absent:
  assumes "consistent e" and "Tasks e tid = None"
  shows "RemoveTask e tid now = e\<lparr>UpdatedAt := now\<rparr>"
proof -
  from assms have "tid \<notin> set (Ordering e)" by (auto simp: consistent_def)
  then have "indexOf (Ordering e) tid = None" by (simp add: indexOf_None)
  with assms(2) show ?thesis by (simp add: RemoveTask_def fun_upd_idem)
qed

text \<open>
  C4. \<open>RemoveTask\<close> assigns \<open>UpdatedAt\<close> after its search, whether or not the identifier was
  found. On the worked project, whose last update was at time 3, removing the absent
  identifier \<open>zzzzzzzz\<close> at time 9 leaves \<open>Tasks\<close> and \<open>Ordering\<close> as they were and sets
  \<open>UpdatedAt\<close> to 9.
\<close>

theorem RemoveTask_absent_sets_UpdatedAt:
  "Tasks exampleEstimation ''zzzzzzzz'' = None
   \<and> Tasks (RemoveTask exampleEstimation ''zzzzzzzz'' 9) = Tasks exampleEstimation
   \<and> Ordering (RemoveTask exampleEstimation ''zzzzzzzz'' 9) = Ordering exampleEstimation
   \<and> UpdatedAt exampleEstimation = 3
   \<and> UpdatedAt (RemoveTask exampleEstimation ''zzzzzzzz'' 9) = 9
   \<and> RemoveTask exampleEstimation ''zzzzzzzz'' 9 \<noteq> exampleEstimation"
proof -
  have absent: "Tasks exampleEstimation ''zzzzzzzz'' = None"
    by (simp add: exampleEstimation_Tasks)
  then have t: "Tasks (RemoveTask exampleEstimation ''zzzzzzzz'' 9) = Tasks exampleEstimation"
    by (simp add: RemoveTask_def fun_upd_idem)
  have o: "Ordering (RemoveTask exampleEstimation ''zzzzzzzz'' 9) = Ordering exampleEstimation"
    by (simp add: RemoveTask_def exampleEstimation_Ordering)
  have u: "UpdatedAt (RemoveTask exampleEstimation ''zzzzzzzz'' 9) = 9"
    by (simp add: RemoveTask_def)
  from u exampleEstimation_UpdatedAt
  have "RemoveTask exampleEstimation ''zzzzzzzz'' 9 \<noteq> exampleEstimation"
    by auto
  with absent t o u exampleEstimation_UpdatedAt show ?thesis by simp
qed

section \<open>Statistics\<close>

subsection \<open>Sums over a map in any order\<close>

lemma rangeValues_map:
  "set ks \<subseteq> dom m \<Longrightarrow> rangeValues ks m = map (\<lambda>k. the (m k)) ks"
  by (induction ks) (auto simp: rangeValues_def)

lemma rangeEntries_map:
  "set ks \<subseteq> dom m \<Longrightarrow> rangeEntries ks m = map (\<lambda>k. (k, the (m k))) ks"
  by (induction ks) (auto simp: rangeEntries_def)

lemma rangeValues_tasks:
  "rangeOrder ks (Tasks e) \<Longrightarrow> rangeValues ks (Tasks e) = map (taskOf e) ks"
  using rangeValues_map[of ks "Tasks e"] by (simp add: rangeOrder_def taskOf_def)

lemma foldl_totals:
  "foldl (\<lambda>(totalMean, totalVariance) task. (totalMean + f task, totalVariance + g task)) (a, b) ts
     = (a + sum_list (map f ts), b + sum_list (map g ts))"
  by (induction ts arbitrary: a b) (simp_all add: add.assoc)

lemma foldl_totals_if:
  "foldl (\<lambda>(totalMean, totalVariance) task.
            if P task then (totalMean + f task, totalVariance + g task)
            else (totalMean, totalVariance)) (a, b) ts
     = (a + sum_list (map (\<lambda>t. if P t then f t else 0) ts),
        b + sum_list (map (\<lambda>t. if P t then g t else 0) ts))"
  by (induction ts arbitrary: a b) (simp_all add: add.assoc)

lemma sum_list_range:
  fixes h :: "Task \<Rightarrow> real"
  assumes "rangeOrder ks (Tasks e)"
  shows "sum_list (map h (rangeValues ks (Tasks e))) = (\<Sum>k\<in>dom (Tasks e). h (taskOf e k))"
proof -
  from assms have d: "distinct ks" and s: "set ks = dom (Tasks e)"
    by (simp_all add: rangeOrder_def)
  have "sum_list (map h (rangeValues ks (Tasks e))) = sum_list (map (\<lambda>k. h (taskOf e k)) ks)"
    by (simp add: rangeValues_tasks[OF assms] comp_def)
  also have "\<dots> = (\<Sum>k\<in>set ks. h (taskOf e k))"
    using d by (rule sum_list_distinct_conv_sum_set)
  finally show ?thesis by (simp add: s)
qed

lemma project_mean:
  assumes "rangeOrder ks (Tasks e)"
  shows "WeightedMean (CalculateProjectEstimation ks e)
           = (\<Sum>k\<in>dom (Tasks e). Task_WeightedMean (taskOf e k))"
  by (simp add: CalculateProjectEstimation_def foldl_totals sum_list_range[OF assms])

lemma project_deviation:
  assumes "rangeOrder ks (Tasks e)"
  shows "StandardDeviation (CalculateProjectEstimation ks e)
           = sqrt (\<Sum>k\<in>dom (Tasks e). (Task_StandardDeviation (taskOf e k))\<^sup>2)"
  by (simp add: CalculateProjectEstimation_def foldl_totals sum_list_range[OF assms])

lemma category_mean:
  assumes "rangeOrder ks (Tasks e)"
  shows "WeightedMean (CalculateCategoryEstimation ks e c) = categoryMean e c"
  by (simp add: CalculateCategoryEstimation_def foldl_totals_if sum_list_range[OF assms]
      categoryMean_def)

subsection \<open>The worked project: means and deviations\<close>

lemma exampleTask_fields:
  "Category exampleTaskA = ''dev''" "Category exampleTaskB = ''dev''" "Category exampleTaskC = ''ops''"
  "Estimations exampleTaskA = \<lparr>Optimistic = 2, Likely = 4, Pessimistic = 6\<rparr>"
  "Estimations exampleTaskB = \<lparr>Optimistic = 1, Likely = 2, Pessimistic = 3\<rparr>"
  "Estimations exampleTaskC = \<lparr>Optimistic = 3, Likely = 4, Pessimistic = 6\<rparr>"
  by (simp_all add: exampleTaskA_def exampleTaskB_def exampleTaskC_def SetEstimations_def
      enforce_def autoFill_def Let_def Ceil_def NewTask_def)

lemma exampleTask_means:
  "Task_WeightedMean exampleTaskA = 4" "Task_WeightedMean exampleTaskB = 2"
  "Task_WeightedMean exampleTaskC = 25 / 6"
  "Task_StandardDeviation exampleTaskA = 2 / 3" "Task_StandardDeviation exampleTaskB = 1 / 3"
  "Task_StandardDeviation exampleTaskC = 1 / 2"
  by (simp_all add: Task_WeightedMean_def Task_StandardDeviation_def exampleTask_fields)

lemma exampleEstimation_dom:
  "dom (Tasks exampleEstimation) = {''a0000001'', ''b0000002'', ''c0000003''}"
  by (auto simp: exampleEstimation_Tasks)

lemma exampleEstimation_taskOf:
  "taskOf exampleEstimation ''a0000001'' = exampleTaskA"
  "taskOf exampleEstimation ''b0000002'' = exampleTaskB"
  "taskOf exampleEstimation ''c0000003'' = exampleTaskC"
  by (simp_all add: taskOf_def exampleEstimation_Tasks)

lemma exampleEstimation_rangeOrder:
  "rangeOrder [''c0000003'', ''a0000001'', ''b0000002''] (Tasks exampleEstimation)"
  "rangeOrder [''a0000001'', ''b0000002'', ''c0000003''] (Tasks exampleEstimation)"
  "rangeOrder [''b0000002'', ''c0000003'', ''a0000001''] (Tasks exampleEstimation)"
  by (auto simp: rangeOrder_def exampleEstimation_dom)

subsection \<open>Project estimation\<close>

text \<open>
  C5. For every estimation, in whatever order the tasks are visited,
  \<open>CalculateProjectEstimation\<close> returns as \<open>WeightedMean\<close> the sum over all tasks of
  (O + 4L + P) / 6 and as \<open>StandardDeviation\<close> the square root of the sum over all tasks of
  ((P - O) / 6) squared, exactly, in real arithmetic.
\<close>

theorem CalculateProjectEstimation_sums:
  assumes "rangeOrder ks (Tasks estimation)"
  shows "WeightedMean (CalculateProjectEstimation ks estimation)
           = (\<Sum>k\<in>dom (Tasks estimation).
                (Optimistic (Estimations (taskOf estimation k))
                 + 4 * Likely (Estimations (taskOf estimation k))
                 + Pessimistic (Estimations (taskOf estimation k))) / 6)
       \<and> StandardDeviation (CalculateProjectEstimation ks estimation)
           = sqrt (\<Sum>k\<in>dom (Tasks estimation).
                ((Pessimistic (Estimations (taskOf estimation k))
                  - Optimistic (Estimations (taskOf estimation k))) / 6)\<^sup>2)"
  using project_mean[OF assms] project_deviation[OF assms]
  by (simp add: Task_WeightedMean_def Task_StandardDeviation_def)

theorem CalculateProjectEstimation_sums_witness:
  "rangeOrder [''c0000003'', ''a0000001'', ''b0000002''] (Tasks exampleEstimation)
   \<and> WeightedMean (CalculateProjectEstimation [''c0000003'', ''a0000001'', ''b0000002''] exampleEstimation)
       = 61 / 6
   \<and> StandardDeviation (CalculateProjectEstimation [''c0000003'', ''a0000001'', ''b0000002''] exampleEstimation)
       = sqrt (29 / 36)"
  using CalculateProjectEstimation_sums[OF exampleEstimation_rangeOrder(1)]
  by (simp add: exampleEstimation_rangeOrder exampleEstimation_dom exampleEstimation_taskOf
      exampleTask_fields power2_eq_square)

subsection \<open>Category distribution\<close>

lemma set_unseen: "set (unseen seen cs) = set cs - seen"
  by (induction seen cs rule: unseen.induct) auto

lemma distinct_unseen: "distinct (unseen seen cs)"
  by (induction seen cs rule: unseen.induct) (auto simp: set_unseen)

lemma configuredStep_pair:
  "configuredStep kc e pe (ds, seen) (c, cat)
     = (ds @ [distributionEntry pe (CalculateCategoryEstimation (kc c) e c) c
                (TaskCategory.Label cat)],
        insert c seen)"
  by (simp add: configuredStep_def Let_def)

lemma referencedStep_pair:
  "referencedStep kc e config pe (ds, seen) t
     = (if Category t \<notin> seen
        then (ds @ [distributionEntry pe
                      (CalculateCategoryEstimation (kc (Category t)) e (Category t)) (Category t)
                      (TaskCategory.Label (GetTaskCategory config (Category t)))],
              insert (Category t) seen)
        else (ds, seen))"
  by (simp add: referencedStep_def Let_def)

lemma configured_fold:
  "foldl (configuredStep kc e pe) (ds, seen) es
     = (ds @ map (\<lambda>(c, cat). distributionEntry pe (CalculateCategoryEstimation (kc c) e c) c
                               (TaskCategory.Label cat)) es,
        seen \<union> fst ` set es)"
proof (induction es arbitrary: ds seen)
  case Nil
  then show ?case by simp
next
  case (Cons x es)
  obtain c cat where x: "x = (c, cat)" by (cases x)
  show ?case by (simp add: x configuredStep_pair Cons.IH)
qed

lemma referenced_fold:
  "foldl (referencedStep kc e config pe) (ds, seen) ts
     = (ds @ map (\<lambda>c. distributionEntry pe (CalculateCategoryEstimation (kc c) e c) c
                         (TaskCategory.Label (GetTaskCategory config c)))
               (unseen seen (map Category ts)),
        seen \<union> Category ` set ts)"
proof (induction ts arbitrary: ds seen)
  case Nil
  then show ?case by simp
next
  case (Cons t ts)
  show ?case by (auto simp add: referencedStep_pair Cons.IH)
qed

text \<open>The result of \<open>CalculateCategoryDistribution\<close> as two mapped lists.\<close>

lemma distribution_shape:
  assumes cfg: "rangeOrder cs (Config.TaskCategories config)"
    and kt: "rangeOrder kt (Tasks e)"
    and nz: "WeightedMean (CalculateProjectEstimation kp e) \<noteq> 0"
  shows "CalculateCategoryDistribution kp cs kc kt e config
     = map (\<lambda>c. distributionEntry (CalculateProjectEstimation kp e)
                   (CalculateCategoryEstimation (kc c) e c) c
                   (TaskCategory.Label (the (Config.TaskCategories config c)))) cs
       @ map (\<lambda>c. distributionEntry (CalculateProjectEstimation kp e)
                   (CalculateCategoryEstimation (kc c) e c) c
                   (TaskCategory.Label (GetTaskCategory config c)))
             (unseen (set cs) (map (\<lambda>k. Category (taskOf e k)) kt))"
proof -
  from cfg have sub: "set cs \<subseteq> dom (Config.TaskCategories config)"
    by (simp add: rangeOrder_def)
  have es: "rangeEntries cs (Config.TaskCategories config)
              = map (\<lambda>c. (c, the (Config.TaskCategories config c))) cs"
    by (rule rangeEntries_map[OF sub])
  have fs: "fst ` set (rangeEntries cs (Config.TaskCategories config)) = set cs"
    by (simp add: es image_image)
  show ?thesis
    using nz
    by (simp add: CalculateCategoryDistribution_def Let_def configured_fold referenced_fold
        rangeValues_tasks[OF kt] es comp_def image_image)
qed

lemma distributionEntry_fields:
  "CategoryID (distributionEntry pe ce c lbl) = c"
  "CategoryLabel (distributionEntry pe ce c lbl) = lbl"
  "Time (distributionEntry pe ce c lbl) = WeightedMean ce"
  "0 < WeightedMean pe \<Longrightarrow>
     Percentage (distributionEntry pe ce c lbl) = WeightedMean ce / WeightedMean pe * 100"
  by (simp_all add: distributionEntry_def Let_def)

lemma categoryMean_total:
  assumes "finite C" and "(\<lambda>k. Category (taskOf e k)) ` dom (Tasks e) \<subseteq> C"
  shows "(\<Sum>c\<in>C. categoryMean e c) = (\<Sum>k\<in>dom (Tasks e). Task_WeightedMean (taskOf e k))"
proof -
  have "(\<Sum>c\<in>C. categoryMean e c)
          = (\<Sum>k\<in>dom (Tasks e). \<Sum>c\<in>C.
               if Category (taskOf e k) = c then Task_WeightedMean (taskOf e k) else 0)"
    unfolding categoryMean_def by (rule sum.swap)
  also have "\<dots> = (\<Sum>k\<in>dom (Tasks e). Task_WeightedMean (taskOf e k))"
  proof (rule sum.cong[OF refl])
    fix k assume "k \<in> dom (Tasks e)"
    with assms(2) have "Category (taskOf e k) \<in> C" by auto
    with assms(1) show "(\<Sum>c\<in>C. if Category (taskOf e k) = c
                           then Task_WeightedMean (taskOf e k) else 0)
                        = Task_WeightedMean (taskOf e k)"
      by (simp add: sum.delta')
  qed
  finally show ?thesis .
qed

lemma distribution_ids:
  assumes cfg: "rangeOrder cs (Config.TaskCategories config)"
    and kt: "rangeOrder kt (Tasks e)"
    and nz: "WeightedMean (CalculateProjectEstimation kp e) \<noteq> 0"
  shows "map CategoryID (CalculateCategoryDistribution kp cs kc kt e config)
           = cs @ unseen (set cs) (map (\<lambda>k. Category (taskOf e k)) kt)"
  by (simp add: distribution_shape[OF cfg kt nz] distributionEntry_fields comp_def)

lemma distribution_times:
  assumes cfg: "rangeOrder cs (Config.TaskCategories config)"
    and kc: "\<forall>c. rangeOrder (kc c) (Tasks e)"
    and kt: "rangeOrder kt (Tasks e)"
    and nz: "WeightedMean (CalculateProjectEstimation kp e) \<noteq> 0"
  shows "map Time (CalculateCategoryDistribution kp cs kc kt e config)
           = map (categoryMean e) (cs @ unseen (set cs) (map (\<lambda>k. Category (taskOf e k)) kt))"
  using kc by (simp add: distribution_shape[OF cfg kt nz] distributionEntry_fields comp_def
      category_mean)

lemma distribution_percentages:
  assumes cfg: "rangeOrder cs (Config.TaskCategories config)"
    and kc: "\<forall>c. rangeOrder (kc c) (Tasks e)"
    and kt: "rangeOrder kt (Tasks e)"
    and pos: "0 < WeightedMean (CalculateProjectEstimation kp e)"
  shows "map Percentage (CalculateCategoryDistribution kp cs kc kt e config)
           = map (\<lambda>c. categoryMean e c / WeightedMean (CalculateProjectEstimation kp e) * 100)
               (cs @ unseen (set cs) (map (\<lambda>k. Category (taskOf e k)) kt))"
proof -
  from pos have nz: "WeightedMean (CalculateProjectEstimation kp e) \<noteq> 0" by simp
  show ?thesis
    using kc pos by (simp add: distribution_shape[OF cfg kt nz] distributionEntry_fields comp_def
      category_mean)
qed

lemma distinct_categories:
  assumes cfg: "rangeOrder cs (m :: string \<rightharpoonup> TaskCategory)"
  shows "distinct (cs @ unseen (set cs) xs)"
  using cfg by (auto simp: rangeOrder_def distinct_unseen set_unseen)

lemma set_categories:
  assumes kt: "rangeOrder kt (Tasks e)"
  shows "set (cs @ unseen (set cs) (map (\<lambda>k. Category (taskOf e k)) kt))
           = set cs \<union> (\<lambda>k. Category (taskOf e k)) ` dom (Tasks e)"
  using kt by (auto simp: rangeOrder_def set_unseen)

lemma percentages_sum:
  assumes kp: "rangeOrder kp (Tasks e)"
    and cfg: "rangeOrder cs (Config.TaskCategories config)"
    and kc: "\<forall>c. rangeOrder (kc c) (Tasks e)"
    and kt: "rangeOrder kt (Tasks e)"
    and pos: "0 < WeightedMean (CalculateProjectEstimation kp e)"
  shows "sum_list (map Percentage (CalculateCategoryDistribution kp cs kc kt e config)) = 100"
proof -
  let ?M = "WeightedMean (CalculateProjectEstimation kp e)"
  let ?ids = "cs @ unseen (set cs) (map (\<lambda>k. Category (taskOf e k)) kt)"
  let ?C = "set cs \<union> (\<lambda>k. Category (taskOf e k)) ` dom (Tasks e)"
  have fin: "finite ?C"
    using set_categories[OF kt, of cs] by (metis List.finite_set)
  have "sum_list (map Percentage (CalculateCategoryDistribution kp cs kc kt e config))
          = sum_list (map (\<lambda>c. categoryMean e c / ?M * 100) ?ids)"
    by (simp only: distribution_percentages[OF cfg kc kt pos])
  also have "\<dots> = (\<Sum>c\<in>set ?ids. categoryMean e c / ?M * 100)"
    using distinct_categories[OF cfg] by (rule sum_list_distinct_conv_sum_set)
  also have "\<dots> = (\<Sum>c\<in>?C. categoryMean e c / ?M * 100)"
    by (simp only: set_categories[OF kt])
  also have "\<dots> = (\<Sum>c\<in>?C. categoryMean e c) / ?M * 100"
    by (simp add: sum_divide_distrib sum_distrib_right)
  also have "(\<Sum>c\<in>?C. categoryMean e c) = ?M"
    using categoryMean_total[OF fin] project_mean[OF kp] by simp
  finally show ?thesis using pos by simp
qed

lemma exampleConfig_rangeOrder:
  "rangeOrder [''qa'', ''dev''] (Config.TaskCategories exampleConfig)"
  by (auto simp: rangeOrder_def exampleConfig_def)

lemma example_project_mean:
  "WeightedMean (CalculateProjectEstimation [''c0000003'', ''a0000001'', ''b0000002''] exampleEstimation)
     = 61 / 6"
  by (simp add: CalculateProjectEstimation_def rangeValues_def exampleEstimation_Tasks
      exampleTask_means)

lemma example_distribution:
  "CalculateCategoryDistribution [''c0000003'', ''a0000001'', ''b0000002''] [''qa'', ''dev'']
       (\<lambda>c. [''a0000001'', ''b0000002'', ''c0000003'']) [''b0000002'', ''c0000003'', ''a0000001'']
       exampleEstimation exampleConfig
     = [\<lparr>CategoryID = ''qa'', CategoryLabel = ''Testing'', Time = 0, Percentage = 0\<rparr>,
        \<lparr>CategoryID = ''dev'', CategoryLabel = ''Development'', Time = 6, Percentage = 3600 / 61\<rparr>,
        \<lparr>CategoryID = ''ops'', CategoryLabel = ''ops'', Time = 25 / 6, Percentage = 2500 / 61\<rparr>]"
  by (simp add: CalculateCategoryDistribution_def example_project_mean Let_def
      rangeEntries_def rangeValues_def exampleConfig_def exampleEstimation_Tasks
      configuredStep_def referencedStep_def distributionEntry_def CalculateCategoryEstimation_def
      exampleTask_means exampleTask_fields GetTaskCategory_def)

text \<open>
  C6. For every estimation and configuration whose project weighted mean is strictly
  positive, in whatever orders the maps are visited, the \<open>Percentage\<close> fields of the
  entries returned by \<open>CalculateCategoryDistribution\<close> sum to 100. The entries start with
  the configured categories in the order visited, no category identifier occurs twice,
  the identifiers are exactly the configured categories together with the categories
  referenced by tasks, and the \<open>Time\<close> of each entry is the mean of the tasks of its
  category: each task's mean is counted in exactly one entry.
\<close>

theorem CalculateCategoryDistribution_percentages:
  assumes kp: "rangeOrder kp (Tasks estimation)"
    and cfg: "rangeOrder cs (Config.TaskCategories config)"
    and kc: "\<forall>c. rangeOrder (kc c) (Tasks estimation)"
    and kt: "rangeOrder kt (Tasks estimation)"
    and pos: "0 < WeightedMean (CalculateProjectEstimation kp estimation)"
  shows "sum_list (map Percentage (CalculateCategoryDistribution kp cs kc kt estimation config)) = 100
       \<and> take (length cs) (map CategoryID (CalculateCategoryDistribution kp cs kc kt estimation config)) = cs
       \<and> distinct (map CategoryID (CalculateCategoryDistribution kp cs kc kt estimation config))
       \<and> set (map CategoryID (CalculateCategoryDistribution kp cs kc kt estimation config))
           = dom (Config.TaskCategories config)
             \<union> (\<lambda>k. Category (taskOf estimation k)) ` dom (Tasks estimation)
       \<and> map Time (CalculateCategoryDistribution kp cs kc kt estimation config)
           = map (categoryMean estimation)
               (map CategoryID (CalculateCategoryDistribution kp cs kc kt estimation config))"
proof -
  from pos have nz: "WeightedMean (CalculateProjectEstimation kp estimation) \<noteq> 0" by simp
  note ids = distribution_ids[OF cfg kt nz, of kc]
  from cfg have c: "set cs = dom (Config.TaskCategories config)" by (simp add: rangeOrder_def)
  have "sum_list (map Percentage (CalculateCategoryDistribution kp cs kc kt estimation config)) = 100"
    by (rule percentages_sum[OF kp cfg kc kt pos])
  moreover have "take (length cs)
      (map CategoryID (CalculateCategoryDistribution kp cs kc kt estimation config)) = cs"
    by (simp add: ids)
  moreover have "distinct (map CategoryID (CalculateCategoryDistribution kp cs kc kt estimation config))"
    by (simp only: ids distinct_categories[OF cfg])
  moreover have "set (map CategoryID (CalculateCategoryDistribution kp cs kc kt estimation config))
           = dom (Config.TaskCategories config)
             \<union> (\<lambda>k. Category (taskOf estimation k)) ` dom (Tasks estimation)"
    using set_categories[OF kt, of cs] by (simp only: ids c[symmetric])
  moreover have "map Time (CalculateCategoryDistribution kp cs kc kt estimation config)
           = map (categoryMean estimation)
               (map CategoryID (CalculateCategoryDistribution kp cs kc kt estimation config))"
    by (simp only: ids distribution_times[OF cfg kc kt nz])
  ultimately show ?thesis by blast
qed

theorem CalculateCategoryDistribution_percentages_witness:
  "rangeOrder [''c0000003'', ''a0000001'', ''b0000002''] (Tasks exampleEstimation)
   \<and> rangeOrder [''qa'', ''dev''] (Config.TaskCategories exampleConfig)
   \<and> (\<forall>c. rangeOrder ((\<lambda>c. [''a0000001'', ''b0000002'', ''c0000003'']) c) (Tasks exampleEstimation))
   \<and> rangeOrder [''b0000002'', ''c0000003'', ''a0000001''] (Tasks exampleEstimation)
   \<and> 0 < WeightedMean (CalculateProjectEstimation [''c0000003'', ''a0000001'', ''b0000002''] exampleEstimation)
   \<and> map Percentage
        (CalculateCategoryDistribution [''c0000003'', ''a0000001'', ''b0000002''] [''qa'', ''dev'']
          (\<lambda>c. [''a0000001'', ''b0000002'', ''c0000003'']) [''b0000002'', ''c0000003'', ''a0000001'']
          exampleEstimation exampleConfig)
       = [0, 3600 / 61, 2500 / 61]
   \<and> sum_list (map Percentage
        (CalculateCategoryDistribution [''c0000003'', ''a0000001'', ''b0000002''] [''qa'', ''dev'']
          (\<lambda>c. [''a0000001'', ''b0000002'', ''c0000003'']) [''b0000002'', ''c0000003'', ''a0000001'']
          exampleEstimation exampleConfig))
       = 100
   \<and> map CategoryID
        (CalculateCategoryDistribution [''c0000003'', ''a0000001'', ''b0000002''] [''qa'', ''dev'']
          (\<lambda>c. [''a0000001'', ''b0000002'', ''c0000003'']) [''b0000002'', ''c0000003'', ''a0000001'']
          exampleEstimation exampleConfig)
       = [''qa'', ''dev'', ''ops'']"
  using CalculateCategoryDistribution_percentages
    [of "[''c0000003'', ''a0000001'', ''b0000002'']" exampleEstimation "[''qa'', ''dev'']"
        exampleConfig "\<lambda>c. [''a0000001'', ''b0000002'', ''c0000003'']"
        "[''b0000002'', ''c0000003'', ''a0000001'']"]
  by (simp add: exampleEstimation_rangeOrder exampleConfig_rangeOrder example_project_mean
      example_distribution)

text \<open>
  C9. For every estimation whose project weighted mean is exactly 0 and every
  configuration, \<open>CalculateCategoryDistribution\<close> returns the empty distribution; the
  division by the project mean is not reached.
\<close>

theorem CalculateCategoryDistribution_zero_mean:
  "WeightedMean (CalculateProjectEstimation kp estimation) = 0 \<Longrightarrow>
   CalculateCategoryDistribution kp cs kc kt estimation config = []"
  by (simp add: CalculateCategoryDistribution_def)

theorem CalculateCategoryDistribution_zero_mean_witness:
  "WeightedMean (CalculateProjectEstimation [''d0000004'']
       (AddTask (NewEstimation ''e0000002'' ''Empty'' 0) (NewTask ''d0000004'' ''Task D'' ''dev'') 1)) = 0
   \<and> CalculateCategoryDistribution [''d0000004''] [''qa'', ''dev''] (\<lambda>c. [''d0000004'']) [''d0000004'']
       (AddTask (NewEstimation ''e0000002'' ''Empty'' 0) (NewTask ''d0000004'' ''Task D'' ''dev'') 1)
       exampleConfig = []"
  using CalculateCategoryDistribution_zero_mean
    [of "[''d0000004'']"
        "AddTask (NewEstimation ''e0000002'' ''Empty'' 0) (NewTask ''d0000004'' ''Task D'' ''dev'') 1"
        "[''qa'', ''dev'']" "\<lambda>c. [''d0000004'']" "[''d0000004'']" exampleConfig]
  by (simp add: CalculateProjectEstimation_def rangeValues_def AddTask_def NewEstimation_def
      NewTask_def Task_WeightedMean_def Task_StandardDeviation_def)

end
